theory Spec2Isabelle
  imports Complex_Main "HOL-Library.Word"
begin

section \<open>Face pipeline (camera.js)\<close>

subsection \<open>State of the closure\<close>

text \<open>
  The \<open>let\<close> variables of the DOMContentLoaded closure of camera.js that the smoothing
  and persistence code reads or writes, together with two observable outputs:
  the text shown in the \<open>emotionDisplay\<close> element and the log of requests issued to
  \<open>POST /api/emotions\<close> (most recent first). Times are the integer millisecond
  readings of \<open>Date.now()\<close>. \<open>stream\<close> is \<open>True\<close> while the closure holds a media
  stream and \<open>False\<close> where the source holds \<open>null\<close>.
\<close>

record post =
  post_time :: int
  post_emotion :: string
  post_confidence :: real

record camera =
  isStreaming :: bool
  stream :: bool
  lastEmotionSaveTime :: int
  lastDetectionTime :: int
  emotionHistory :: "string list"
  currentEmotion :: string
  noFaceDetectionCount :: nat
  emotionDisplay :: string
  posts :: "post list"

definition emotionSaveInterval :: int where
  "emotionSaveInterval = 2000"

definition detectionInterval :: int where
  "detectionInterval = 500"

text \<open>
  The state when the closure has been set up. The initial text of the display element
  comes from the page, which is not part of the scripts, so it is a parameter.
\<close>

definition initial :: "string \<Rightarrow> camera" where
  "initial shown =
     \<lparr> isStreaming = False, stream = False, lastEmotionSaveTime = 0,
       lastDetectionTime = 0, emotionHistory = [], currentEmotion = ''No face detected'',
       noFaceDetectionCount = 0, emotionDisplay = shown, posts = [] \<rparr>"

subsection \<open>mapEmotion\<close>

text \<open>
  \<open>expressions\<close> is the recognizer's object, read through \<open>Object.entries\<close>: a list of
  (name, value) pairs. The loop keeps the first entry with the strictly highest value,
  starting from \<open>Neutral\<close> at 0; the name is then looked up in the table of the seven
  categories, with \<open>Neutral\<close> for a name that is not there.
\<close>

definition emotionMap :: "(string \<times> string) list" where
  "emotionMap =
     [(''neutral'', ''Neutral''), (''happy'', ''Happy''), (''sad'', ''Sad''),
      (''angry'', ''Angry''), (''fearful'', ''Fearful''),
      (''disgusted'', ''Disgusted''), (''surprised'', ''Surprised'')]"

definition mapEmotion :: "(string \<times> real) list \<Rightarrow> string \<times> real" where
  "mapEmotion expressions =
     (let (maxValue, maxEmotion) =
            foldl (\<lambda>(maxValue, maxEmotion) (emotion, v).
                     if v > maxValue then (v, emotion) else (maxValue, maxEmotion))
                  (0, ''Neutral'') expressions
      in (case map_of emotionMap maxEmotion of
            Some e \<Rightarrow> (e, maxValue)
          | None \<Rightarrow> (''Neutral'', maxValue)))"

subsection \<open>saveEmotion\<close>

text \<open>
  \<open>now\<close> is the reading of \<open>Date.now()\<close> that saveEmotion takes on entry. When the
  guard passes, the time of the save is recorded and the request is issued; the
  request is logged here whether or not the backend answers.
\<close>

definition saveEmotion :: "int \<Rightarrow> string \<Rightarrow> real \<Rightarrow> camera \<Rightarrow> camera" where
  "saveEmotion now emotion confidence s =
     (if emotion \<noteq> ''No face detected'' \<and> now - lastEmotionSaveTime s > emotionSaveInterval
      then s\<lparr> lastEmotionSaveTime := now,
              posts := \<lparr> post_time = now, post_emotion = emotion,
                         post_confidence = confidence \<rparr> # posts s \<rparr>
      else s)"

subsection \<open>getStableEmotion\<close>

text \<open>
  \<open>emotionHistory.push(newEmotion)\<close> followed by one \<open>shift()\<close> when the length
  exceeds 5.
\<close>

definition pushHistory :: "'a \<Rightarrow> 'a list \<Rightarrow> 'a list" where
  "pushHistory newEmotion history =
     (let h = history @ [newEmotion] in if length h > 5 then tl h else h)"

text \<open>
  The object \<open>counts\<close> is an association list in insertion order, which is the order
  in which \<open>Object.entries\<close> lists string keys that are not array indices. The
  statement \<open>counts[emotion] = (counts[emotion] || 0) + 1\<close> adds one to the entry of a
  key that is present, in place, and appends a new key with count 1. The labels the
  function receives are the category names of \<open>mapEmotion\<close>; a label that is an array
  index (such as \<open>0\<close>) or a name inherited from \<open>Object.prototype\<close> would be listed
  or counted differently and is outside this model.
\<close>

fun countEmotion :: "'a \<Rightarrow> ('a \<times> nat) list \<Rightarrow> ('a \<times> nat) list" where
  "countEmotion emotion [] = [(emotion, 1)]"
| "countEmotion emotion ((k, c) # counts) =
     (if k = emotion then (k, c + 1) # counts else (k, c) # countEmotion emotion counts)"

definition countHistory :: "'a list \<Rightarrow> ('a \<times> nat) list" where
  "countHistory history = foldl (\<lambda>counts emotion. countEmotion emotion counts) [] history"

text \<open>The loop over \<open>Object.entries(counts)\<close> with the strict comparison.\<close>

abbreviation (input) pick :: "nat \<times> 'a \<Rightarrow> 'a \<times> nat \<Rightarrow> nat \<times> 'a" where
  "pick \<equiv> (\<lambda>(maxCount, stableEmotion) (emotion, count).
             if count > maxCount then (count, emotion) else (maxCount, stableEmotion))"

definition mostFrequent :: "'a \<Rightarrow> ('a \<times> nat) list \<Rightarrow> nat \<times> 'a" where
  "mostFrequent newEmotion counts = foldl pick (0, newEmotion) counts"

definition stableOf :: "'a \<Rightarrow> 'a list \<Rightarrow> 'a" where
  "stableOf newEmotion history = snd (mostFrequent newEmotion (countHistory history))"

definition getStableEmotion :: "string \<Rightarrow> camera \<Rightarrow> string \<times> camera" where
  "getStableEmotion newEmotion s =
     (let h = pushHistory newEmotion (emotionHistory s)
      in (stableOf newEmotion h, s\<lparr> emotionHistory := h \<rparr>))"

text \<open>Feeding a sequence of labels through successive calls, collecting the answers.\<close>

fun observeAll :: "string list \<Rightarrow> camera \<Rightarrow> string list \<times> camera" where
  "observeAll [] s = ([], s)"
| "observeAll (e # es) s =
     (let (r, s1) = getStableEmotion e s; (rs, s2) = observeAll es s1 in (r # rs, s2))"

subsection \<open>detectFaces\<close>

text \<open>
  One run of \<open>detectFaces\<close>. What the video element and the recognizer deliver in this
  run is the input: the video is not ready; no face was found by any detector (also
  when detection failed, where the source sets \<open>detections = []\<close>); a face without
  expressions; or a face with its expressions. \<open>now\<close> is the reading of
  \<open>Date.now()\<close> on entry and \<open>saveNow\<close> the one \<open>saveEmotion\<close> takes, if it is called.
  The drawing calls and the dashboard update are not modelled.
\<close>

datatype outcome =
    VideoNotReady
  | NoFace
  | NoExpressions
  | Expressions "(string \<times> real) list"

definition noFaceTick :: "camera \<Rightarrow> camera" where
  "noFaceTick s =
     (let s1 = s\<lparr> noFaceDetectionCount := noFaceDetectionCount s + 1 \<rparr>
      in if noFaceDetectionCount s1 > 5 \<and> currentEmotion s1 \<noteq> ''No face detected''
         then s1\<lparr> currentEmotion := ''No face detected'', emotionHistory := [],
                  emotionDisplay := ''No face detected'' \<rparr>
         else s1)"

definition faceTick :: "(string \<times> real) list \<Rightarrow> int \<Rightarrow> camera \<Rightarrow> camera" where
  "faceTick expressions saveNow s =
     (let (emotion, confidence) = mapEmotion expressions
      in if confidence > 0.2
         then (let (stableEmotion, s1) = getStableEmotion emotion s
               in if stableEmotion \<noteq> currentEmotion s1
                  then saveEmotion saveNow stableEmotion confidence
                         (s1\<lparr> currentEmotion := stableEmotion,
                              emotionDisplay := stableEmotion \<rparr>)
                  else s1)
         else s)"

definition detectFaces :: "int \<Rightarrow> outcome \<Rightarrow> int \<Rightarrow> camera \<Rightarrow> camera" where
  "detectFaces now out saveNow s =
     (if \<not> isStreaming s then s
      else if now - lastDetectionTime s < detectionInterval then s
      else (let s1 = s\<lparr> lastDetectionTime := now \<rparr>
            in case out of
                 VideoNotReady \<Rightarrow> s1
               | NoFace \<Rightarrow> noFaceTick s1
               | NoExpressions \<Rightarrow> s1\<lparr> noFaceDetectionCount := 0 \<rparr>
               | Expressions expressions \<Rightarrow>
                   faceTick expressions saveNow (s1\<lparr> noFaceDetectionCount := 0 \<rparr>)))"

subsection \<open>Start and stop handlers\<close>

text \<open>
  The click handlers, restricted to the state above. \<open>granted\<close> says whether the
  camera was obtained and the video started; otherwise the handler ends in its
  \<open>catch\<close> without changing the state.
\<close>

definition startDetection :: "bool \<Rightarrow> camera \<Rightarrow> camera" where
  "startDetection granted s =
     (if \<not> isStreaming s \<and> granted then s\<lparr> stream := True, isStreaming := True \<rparr> else s)"

definition stopDetection :: "camera \<Rightarrow> camera" where
  "stopDetection s =
     (if isStreaming s
      then s\<lparr> stream := False, emotionDisplay := ''Waiting for detection...'',
              isStreaming := False \<rparr>
      else s)"

text \<open>An execution is a sequence of handler and detection runs from the initial state.\<close>

datatype event =
    Start bool
  | Stop
  | Detect int outcome int

fun step :: "camera \<Rightarrow> event \<Rightarrow> camera" where
  "step s (Start granted) = startDetection granted s"
| "step s Stop = stopDetection s"
| "step s (Detect now out saveNow) = detectFaces now out saveNow s"

definition run :: "event list \<Rightarrow> camera \<Rightarrow> camera" where
  "run evs s = foldl step s evs"

subsection \<open>Two readings of the tie-break\<close>

text \<open>
  The reading in the specification's words: scan the history from the left, keeping
  the running count of each label, and take the first label whose running count
  reaches the maximum occurrence count of the whole history.
\<close>

definition maxOccurrence :: "'a list \<Rightarrow> nat" where
  "maxOccurrence history = fold max (map (count_list history) history) 0"

fun scanReach :: "nat \<Rightarrow> 'a list \<Rightarrow> 'a list \<Rightarrow> 'a option" where
  "scanReach m seen [] = None"
| "scanReach m seen (x # rest) =
     (if count_list (seen @ [x]) x = m then Some x else scanReach m (seen @ [x]) rest)"

definition spec_firstToReachMax :: "'a list \<Rightarrow> 'a option" where
  "spec_firstToReachMax history = scanReach (maxOccurrence history) [] history"

text \<open>
  The other reading: the first label of the history, from the left, whose total
  count in the history is not exceeded by any label's.
\<close>

definition firstWithMaxCount :: "'a list \<Rightarrow> 'a option" where
  "firstWithMaxCount history =
     find (\<lambda>x. list_all (\<lambda>y. count_list history y \<le> count_list history x) history) history"

text \<open>The keys of \<open>counts\<close> in insertion order: the labels by first occurrence.\<close>

definition firsts :: "'a list \<Rightarrow> 'a list" where
  "firsts history = rev (remdups (rev history))"

subsection \<open>The request log\<close>

text \<open>Successive times of a log, most recent first, lie at least \<open>d\<close> apart.\<close>

fun spaced :: "int \<Rightarrow> int list \<Rightarrow> bool" where
  "spaced d (t2 # t1 # ts) = (t2 - t1 \<ge> d \<and> spaced d (t1 # ts))"
| "spaced d ts = True"

text \<open>
  The invariant of the request log: successive requests lie more than the save
  interval apart, none carries the label of the empty state, and the recorded save
  time is the time of the latest request.
\<close>

definition logged :: "camera \<Rightarrow> bool" where
  "logged s =
     (spaced (emotionSaveInterval + 1) (map post_time (posts s)) \<and>
      ''No face detected'' \<notin> post_emotion ` set (posts s) \<and>
      (posts s \<noteq> [] \<longrightarrow> lastEmotionSaveTime s = post_time (hd (posts s))))"

subsection \<open>Sessions and runs\<close>

text \<open>
  A session in which the camera was started and one frame showed a happy face
  with confidence 0.9.
\<close>

definition happyFrame :: outcome where
  "happyFrame = Expressions [(''neutral'', 0.05), (''happy'', 0.9), (''sad'', 0.05)]"

definition watching :: camera where
  "watching = run [Start True, Detect 1700000000000 happyFrame 1700000000040] (initial [])"

text \<open>Six detection times, 500 ms apart, following the frame of that session.\<close>

definition sixRuns :: "int list" where
  "sixRuns = [1700000000500, 1700000001000, 1700000001500, 1700000002000,
              1700000002500, 1700000003000]"

text \<open>
  Runs of \<open>detectFaces\<close> in which no face is found, at the given times, and the
  condition under which each of them passes the interval gate.
\<close>

definition noFaceRuns :: "int list \<Rightarrow> camera \<Rightarrow> camera" where
  "noFaceRuns nows s = foldl (\<lambda>s now. detectFaces now NoFace now s) s nows"

fun passesGate :: "int \<Rightarrow> int list \<Rightarrow> bool" where
  "passesGate previous [] = True"
| "passesGate previous (now # nows) =
     (\<not> now - previous < detectionInterval \<and> passesGate now nows)"

section \<open>Voice pipeline (text-chat.js)\<close>

subsection \<open>JavaScript numbers\<close>

text \<open>
  A number is a finite value, an infinity or NaN. Finite arithmetic is exact here
  (rounding is not modelled), and the two zeros are one value: every divisor in
  \<open>calculateAudioFeatures\<close> is a sum or product of non-negative numbers, so none is
  the negative zero. Division by zero, the infinities and NaN behave as in the
  language: \<open>0 / 0\<close> is NaN, \<open>x / 0\<close> is an infinity for \<open>x \<noteq> 0\<close>, NaN propagates
  through arithmetic, \<open>Math.sqrt\<close>, \<open>Math.max\<close> and \<open>Math.min\<close>, and every
  comparison with NaN is false.
\<close>

datatype jsnum = Num real | PosInf | NegInf | NaN

fun js_neg :: "jsnum \<Rightarrow> jsnum" where
  "js_neg (Num a) = Num (- a)"
| "js_neg PosInf = NegInf"
| "js_neg NegInf = PosInf"
| "js_neg NaN = NaN"

fun js_add :: "jsnum \<Rightarrow> jsnum \<Rightarrow> jsnum" where
  "js_add (Num a) (Num b) = Num (a + b)"
| "js_add NaN _ = NaN"
| "js_add _ NaN = NaN"
| "js_add PosInf NegInf = NaN"
| "js_add NegInf PosInf = NaN"
| "js_add PosInf _ = PosInf"
| "js_add _ PosInf = PosInf"
| "js_add NegInf _ = NegInf"
| "js_add _ NegInf = NegInf"

definition js_sub :: "jsnum \<Rightarrow> jsnum \<Rightarrow> jsnum" where
  "js_sub a b = js_add a (js_neg b)"

definition infinity :: "bool \<Rightarrow> jsnum" where
  "infinity positive = (if positive then PosInf else NegInf)"

fun js_mul :: "jsnum \<Rightarrow> jsnum \<Rightarrow> jsnum" where
  "js_mul (Num a) (Num b) = Num (a * b)"
| "js_mul NaN _ = NaN"
| "js_mul _ NaN = NaN"
| "js_mul PosInf (Num b) = (if b = 0 then NaN else infinity (b > 0))"
| "js_mul NegInf (Num b) = (if b = 0 then NaN else infinity (b < 0))"
| "js_mul (Num a) PosInf = (if a = 0 then NaN else infinity (a > 0))"
| "js_mul (Num a) NegInf = (if a = 0 then NaN else infinity (a < 0))"
| "js_mul PosInf PosInf = PosInf"
| "js_mul NegInf NegInf = PosInf"
| "js_mul PosInf NegInf = NegInf"
| "js_mul NegInf PosInf = NegInf"

fun js_div :: "jsnum \<Rightarrow> jsnum \<Rightarrow> jsnum" where
  "js_div (Num a) (Num b) =
     (if b = 0 then (if a = 0 then NaN else infinity (a > 0)) else Num (a / b))"
| "js_div NaN _ = NaN"
| "js_div _ NaN = NaN"
| "js_div PosInf (Num b) = infinity (b \<ge> 0)"
| "js_div NegInf (Num b) = infinity (b < 0)"
| "js_div (Num a) PosInf = Num 0"
| "js_div (Num a) NegInf = Num 0"
| "js_div PosInf PosInf = NaN"
| "js_div PosInf NegInf = NaN"
| "js_div NegInf PosInf = NaN"
| "js_div NegInf NegInf = NaN"

fun js_sqrt :: "jsnum \<Rightarrow> jsnum" where
  "js_sqrt (Num a) = (if a < 0 then NaN else Num (sqrt a))"
| "js_sqrt PosInf = PosInf"
| "js_sqrt _ = NaN"

fun js_max :: "jsnum \<Rightarrow> jsnum \<Rightarrow> jsnum" where
  "js_max (Num a) (Num b) = Num (max a b)"
| "js_max NaN _ = NaN"
| "js_max _ NaN = NaN"
| "js_max PosInf _ = PosInf"
| "js_max _ PosInf = PosInf"
| "js_max NegInf b = b"
| "js_max a NegInf = a"

fun js_min :: "jsnum \<Rightarrow> jsnum \<Rightarrow> jsnum" where
  "js_min (Num a) (Num b) = Num (min a b)"
| "js_min NaN _ = NaN"
| "js_min _ NaN = NaN"
| "js_min NegInf _ = NegInf"
| "js_min _ NegInf = NegInf"
| "js_min PosInf b = b"
| "js_min a PosInf = a"

fun js_gt :: "jsnum \<Rightarrow> jsnum \<Rightarrow> bool" where
  "js_gt (Num a) (Num b) = (a > b)"
| "js_gt NaN _ = False"
| "js_gt _ NaN = False"
| "js_gt PosInf b = (b \<noteq> PosInf)"
| "js_gt _ PosInf = False"
| "js_gt NegInf _ = False"
| "js_gt _ NegInf = True"

text \<open>\<open>a >= b\<close> and the test \<open>0 <= x && x <= 1\<close>.\<close>

definition js_ge :: "jsnum \<Rightarrow> jsnum \<Rightarrow> bool" where
  "js_ge a b = (a \<noteq> NaN \<and> b \<noteq> NaN \<and> (a = b \<or> js_gt a b))"

definition inUnitInterval :: "jsnum \<Rightarrow> bool" where
  "inUnitInterval x = (js_ge x (Num 0) \<and> js_ge (Num 1) x)"

subsection \<open>calculateAudioFeatures\<close>

text \<open>
  \<open>frequencyData\<close> is the \<open>Uint8Array\<close> filled by the analyser. \<open>slice\<close> is used with
  \<open>0 \<le> start \<le> end \<le> length\<close> only. \<open>Math.floor(bufferLength * 0.1)\<close> and the
  three like it are the integer quotients below: the doubles nearest to 0.1, 0.3, 0.6
  and 0.8 are close enough that the rounded product has the same floor for every
  length an array can have.
\<close>

type_synonym byte = "8 word"

definition byteNum :: "byte \<Rightarrow> jsnum" where
  "byteNum val = Num (real (unat val))"

definition slice :: "nat \<Rightarrow> nat \<Rightarrow> 'a list \<Rightarrow> 'a list" where
  "slice start end xs = take (end - start) (drop start xs)"

definition bandEnergy :: "real \<Rightarrow> nat \<Rightarrow> nat \<Rightarrow> byte list \<Rightarrow> jsnum" where
  "bandEnergy weight start end frequencyData =
     js_div (foldl (\<lambda>sum val. js_add sum (js_mul (byteNum val) (Num weight))) (Num 0)
               (slice start end frequencyData))
            (Num (real ((end - start) * 255)))"

definition totalWeightOf :: "byte list \<Rightarrow> jsnum" where
  "totalWeightOf frequencyData =
     foldl (\<lambda>totalWeight (i, val). js_add totalWeight (byteNum val)) (Num 0)
       (enumerate 0 frequencyData)"

definition spectralCentroidOf :: "byte list \<Rightarrow> jsnum" where
  "spectralCentroidOf frequencyData =
     (let bufferLength = length frequencyData;
          weighted = foldl (\<lambda>acc (i, val). js_add acc (js_mul (Num (real i)) (byteNum val)))
                       (Num 0) (enumerate 0 frequencyData);
          totalWeight = totalWeightOf frequencyData
      in if js_gt totalWeight (Num 0)
         then js_div (js_div weighted totalWeight) (Num (real bufferLength))
         else Num 0)"

definition spectralSpreadOf :: "byte list \<Rightarrow> jsnum" where
  "spectralSpreadOf frequencyData =
     (let bufferLength = length frequencyData;
          spectralCentroid = spectralCentroidOf frequencyData
      in js_sqrt
           (js_div
              (foldl (\<lambda>sum (i, val).
                        let diff = js_sub (js_div (Num (real i)) (Num (real bufferLength)))
                                     spectralCentroid
                        in js_add sum (js_mul (js_mul diff diff) (byteNum val)))
                 (Num 0) (enumerate 0 frequencyData))
              (totalWeightOf frequencyData)))"

record audioFeatures =
  pitch :: jsnum
  volume :: jsnum
  speechRate :: jsnum
  spectralCentroid :: jsnum
  spectralSpread :: jsnum
  bassEnergy :: jsnum
  lowMidEnergy :: jsnum
  midEnergy :: jsnum
  presenceEnergy :: jsnum
  brillianceEnergy :: jsnum
  totalEnergy :: jsnum
  consistency :: jsnum

definition clamp01 :: "jsnum \<Rightarrow> jsnum" where
  "clamp01 x = js_min (Num 1) (js_max (Num 0) x)"

definition calculateAudioFeatures :: "byte list \<Rightarrow> audioFeatures" where
  "calculateAudioFeatures frequencyData =
     (let bufferLength = length frequencyData;
          bassRange = bufferLength div 10;
          lowMidRange = (bufferLength * 3) div 10;
          midRange = (bufferLength * 6) div 10;
          presenceRange = (bufferLength * 8) div 10;
          brillianceRange = bufferLength;
          bass = bandEnergy 1.2 0 bassRange frequencyData;
          lowMid = bandEnergy 1.5 bassRange lowMidRange frequencyData;
          mid = bandEnergy 2.0 lowMidRange midRange frequencyData;
          presence = bandEnergy 1.8 midRange presenceRange frequencyData;
          brilliance = bandEnergy 1.3 presenceRange brillianceRange frequencyData;
          total = js_div (foldl (\<lambda>sum val. js_add sum (byteNum val)) (Num 0) frequencyData)
                    (Num (real (bufferLength * 255)));
          p = js_div (js_add (js_mul presence (Num 1.5)) brilliance) (js_add bass lowMid);
          v = js_div (js_add (js_add (js_mul mid (Num 2)) (js_mul presence (Num 1.5))) bass)
                (Num 3);
          r = js_div (js_add presence mid) (js_add bass lowMid);
          c = spectralCentroidOf frequencyData;
          spread = spectralSpreadOf frequencyData
      in \<lparr> pitch = clamp01 p, volume = clamp01 v, speechRate = clamp01 r,
           spectralCentroid = clamp01 c, spectralSpread = clamp01 spread,
           bassEnergy = bass, lowMidEnergy = lowMid, midEnergy = mid,
           presenceEnergy = presence, brillianceEnergy = brilliance,
           totalEnergy = total, consistency = js_sub (Num 1) spread \<rparr>)"

section \<open>Properties of the face pipeline\<close>

subsection \<open>The counts object\<close>

lemma firsts_snoc: "firsts (h @ [x]) = (if x \<in> set h then firsts h else firsts h @ [x])"
  by (simp add: firsts_def)

lemma set_firsts: "set (firsts h) = set h"
  by (simp add: firsts_def)

lemma distinct_firsts: "distinct (firsts h)"
  by (simp add: firsts_def)

lemma countEmotion_map:
  "distinct ks \<Longrightarrow>
   countEmotion x (map (\<lambda>k. (k, f k)) ks) =
     (if x \<in> set ks then map (\<lambda>k. (k, if k = x then f k + 1 else f k)) ks
      else map (\<lambda>k. (k, f k)) ks @ [(x, 1)])"
  by (induction ks) auto

lemma countHistory_snoc: "countHistory (h @ [x]) = countEmotion x (countHistory h)"
  by (simp add: countHistory_def)

text \<open>
  The entries of \<open>counts\<close> are the labels of the history in the order of their first
  occurrence, each with its number of occurrences.
\<close>

lemma countHistory_firsts: "countHistory h = map (\<lambda>k. (k, count_list h k)) (firsts h)"
proof (induction h rule: rev_induct)
  case Nil
  show ?case by (simp add: countHistory_def firsts_def)
next
  case (snoc x h)
  show ?case
    by (auto simp: countHistory_snoc snoc.IH countEmotion_map distinct_firsts set_firsts
        firsts_snoc count_list_0_iff)
qed

lemma takeWhile_firsts: "set (takeWhile P (firsts h)) = set (takeWhile P h)"
proof (induction h rule: rev_induct)
  case Nil
  show ?case by (simp add: firsts_def)
next
  case (snoc x h)
  show ?case
  proof (cases "\<forall>y\<in>set h. P y")
    case True
    then have a: "takeWhile P (h @ [x]) = h @ takeWhile P [x]"
      by (simp add: takeWhile_append2)
    from True have "\<forall>y\<in>set (firsts h). P y" by (simp add: set_firsts)
    then have b: "takeWhile P (firsts h @ [x]) = firsts h @ takeWhile P [x]"
      and c: "takeWhile P (firsts h) = firsts h"
      by (simp_all add: takeWhile_append2)
    from True have d: "x \<in> set h \<Longrightarrow> P x" by simp
    show ?thesis using d by (auto simp: firsts_snoc a b c set_firsts)
  next
    case False
    then obtain y where y: "y \<in> set h" "\<not> P y" by blast
    then have a: "takeWhile P (h @ [x]) = takeWhile P h"
      by (simp add: takeWhile_append1)
    from y have "y \<in> set (firsts h)" by (simp add: set_firsts)
    with y have b: "takeWhile P (firsts h @ [x]) = takeWhile P (firsts h)"
      by (simp add: takeWhile_append1)
    show ?thesis using snoc.IH by (simp add: firsts_snoc a b)
  qed
qed

subsection \<open>The loop over the entries\<close>

lemma pick_upper:
  "foldl pick (m, e) cs = (m', r) \<Longrightarrow> m \<le> m' \<and> (\<forall>(k, c) \<in> set cs. c \<le> m')"
proof (induction cs arbitrary: m e)
  case Nil then show ?case by simp
next
  case (Cons a cs)
  obtain k c where a: "a = (k, c)" by (cases a)
  show ?case
  proof (cases "c > m")
    case True
    with Cons.prems a have "foldl pick (c, k) cs = (m', r)" by simp
    from Cons.IH[OF this] True a show ?thesis by auto
  next
    case False
    with Cons.prems a have "foldl pick (m, e) cs = (m', r)" by simp
    from Cons.IH[OF this] False a show ?thesis by auto
  qed
qed

text \<open>
  The loop either keeps its start value, or ends on the first entry that carries the
  final maximum: every entry before it has a strictly smaller count.
\<close>

lemma pick_first:
  "foldl pick (m, e) cs = (m', r) \<Longrightarrow>
   (m' = m \<and> r = e) \<or>
   (m < m' \<and> (\<exists>pre post. cs = pre @ (r, m') # post \<and> (\<forall>(k, c) \<in> set pre. c < m')))"
proof (induction cs arbitrary: m e)
  case Nil then show ?case by simp
next
  case (Cons a cs)
  obtain k c where a: "a = (k, c)" by (cases a)
  show ?case
  proof (cases "c > m")
    case True
    with Cons.prems a have f: "foldl pick (c, k) cs = (m', r)" by simp
    from Cons.IH[OF f] show ?thesis
    proof
      assume here: "m' = c \<and> r = k"
      then have "a # cs = [] @ (r, m') # cs" by (simp add: a)
      with True here show ?thesis by fastforce
    next
      assume "c < m' \<and> (\<exists>pre post. cs = pre @ (r, m') # post \<and> (\<forall>(k, c) \<in> set pre. c < m'))"
      then obtain pre post where c: "c < m'" and cs: "cs = pre @ (r, m') # post"
        and pre: "\<forall>(k, c) \<in> set pre. c < m'" by blast
      have "a # cs = (a # pre) @ (r, m') # post" by (simp add: cs)
      moreover have "\<forall>(k, c) \<in> set (a # pre). c < m'" using pre c a by simp
      moreover have "m < m'" using True c by simp
      ultimately show ?thesis by blast
    qed
  next
    case False
    with Cons.prems a have f: "foldl pick (m, e) cs = (m', r)" by simp
    from Cons.IH[OF f] show ?thesis
    proof
      assume "m' = m \<and> r = e" then show ?thesis by simp
    next
      assume "m < m' \<and> (\<exists>pre post. cs = pre @ (r, m') # post \<and> (\<forall>(k, c) \<in> set pre. c < m'))"
      then obtain pre post where c: "m < m'" and cs: "cs = pre @ (r, m') # post"
        and pre: "\<forall>(k, c) \<in> set pre. c < m'" by blast
      have "a # cs = (a # pre) @ (r, m') # post" by (simp add: cs)
      moreover have "\<forall>(k, c) \<in> set (a # pre). c < m'" using pre c a False by simp
      ultimately show ?thesis using c by blast
    qed
  qed
qed

lemma find_first:
  "r \<in> set h \<Longrightarrow> P r \<Longrightarrow> \<forall>y \<in> set (takeWhile (\<lambda>x. x \<noteq> r) h). \<not> P y \<Longrightarrow> find P h = Some r"
  by (induction h) (auto split: if_splits)

lemma stableOf_first:
  assumes "h \<noteq> []"
  shows "firstWithMaxCount h = Some (stableOf e h)"
proof -
  let ?g = "\<lambda>k. (k, count_list h k)"
  obtain m r where mr: "foldl pick (0, e) (countHistory h) = (m, r)" by fastforce
  then have r: "stableOf e h = r" by (simp add: stableOf_def mostFrequent_def)
  have cs: "countHistory h = map ?g (firsts h)" by (rule countHistory_firsts)
  from assms obtain x where x: "x \<in> set h" by (cases h) auto
  from pick_upper[OF mr] have up: "\<forall>k \<in> set h. count_list h k \<le> m"
    by (auto simp: cs set_firsts)
  with x have "count_list h x \<le> m" by blast
  moreover have "count_list h x > 0" using x count_list_0_iff[of h x] by auto
  ultimately have "0 < m" by simp
  with pick_first[OF mr] obtain pre post where
    split: "countHistory h = pre @ (r, m) # post" and pre: "\<forall>(k, c) \<in> set pre. c < m"
    by auto
  from split cs obtain ks1 ks2 where ks: "firsts h = ks1 @ r # ks2" and p1: "pre = map ?g ks1"
    and rm: "m = count_list h r"
    by (auto simp: map_eq_append_conv append_eq_map_conv Cons_eq_map_conv)
  from ks distinct_firsts[of h] have "r \<notin> set ks1" by auto
  then have "takeWhile (\<lambda>x. x \<noteq> r) (ks1 @ r # ks2) = ks1 @ takeWhile (\<lambda>x. x \<noteq> r) (r # ks2)"
    by (intro takeWhile_append2) auto
  then have tw: "takeWhile (\<lambda>x. x \<noteq> r) (firsts h) = ks1"
    by (simp add: ks)
  have rin: "r \<in> set h" using ks set_firsts[of h] by auto
  have before: "\<forall>y \<in> set (takeWhile (\<lambda>x. x \<noteq> r) h). count_list h y < count_list h r"
  proof
    fix y assume "y \<in> set (takeWhile (\<lambda>x. x \<noteq> r) h)"
    then have "y \<in> set ks1" using takeWhile_firsts[of "\<lambda>x. x \<noteq> r" h] tw by simp
    then have "(y, count_list h y) \<in> set pre" by (auto simp: p1)
    with pre rm show "count_list h y < count_list h r" by auto
  qed
  let ?P = "\<lambda>x. list_all (\<lambda>y. count_list h y \<le> count_list h x) h"
  have "?P r" using up rm by (simp add: list_all_iff)
  moreover have "\<forall>y \<in> set (takeWhile (\<lambda>x. x \<noteq> r) h). \<not> ?P y"
    using before rin by (auto simp: list_all_iff not_le)
  ultimately have "find ?P h = Some r" using rin by (intro find_first) auto
  then show ?thesis by (simp add: firstWithMaxCount_def r)
qed

lemma stableOf_mem: "stableOf e h \<in> insert e (set h)"
proof -
  obtain m r where mr: "foldl pick (0, e) (countHistory h) = (m, r)" by fastforce
  from pick_first[OF mr] have "r = e \<or> r \<in> fst ` set (countHistory h)" by force
  moreover have "fst ` set (countHistory h) = set h"
    by (simp add: countHistory_firsts set_firsts image_image)
  moreover have "stableOf e h = r"
    by (simp add: stableOf_def mostFrequent_def mr)
  ultimately show ?thesis by auto
qed

subsection \<open>The window\<close>

lemma pushHistory_mem: "e \<in> set (pushHistory e h)"
  by (cases h) (auto simp: pushHistory_def Let_def)

lemma pushHistory_last5:
  "length h \<le> 5 \<Longrightarrow> pushHistory e h = drop (length (h @ [e]) - 5) (h @ [e])"
  by (cases h) (auto simp: pushHistory_def Let_def drop_Cons')

lemma getStableEmotion_mem:
  "fst (getStableEmotion e s) \<in> set (emotionHistory (snd (getStableEmotion e s)))"
proof -
  have "stableOf e (pushHistory e (emotionHistory s))
          \<in> insert e (set (pushHistory e (emotionHistory s)))"
    by (rule stableOf_mem)
  then have "stableOf e (pushHistory e (emotionHistory s)) \<in> set (pushHistory e (emotionHistory s))"
    using pushHistory_mem[of e "emotionHistory s"] by auto
  then show ?thesis by (simp add: getStableEmotion_def Let_def)
qed

lemma observeAll_snoc:
  "observeAll (es @ [e]) s =
     (fst (observeAll es s) @ [fst (getStableEmotion e (snd (observeAll es s)))],
      snd (getStableEmotion e (snd (observeAll es s))))"
  by (induction es arbitrary: s) (simp_all add: split_beta Let_def)

lemma observeAll_history:
  "emotionHistory (snd (observeAll es (s\<lparr>emotionHistory := []\<rparr>))) = drop (length es - 5) es"
proof (induction es rule: rev_induct)
  case Nil show ?case by simp
next
  case (snoc e es)
  let ?d = "drop (length es - 5) es"
  have len: "length ?d \<le> 5" by simp
  have "emotionHistory (snd (observeAll (es @ [e]) (s\<lparr>emotionHistory := []\<rparr>))) = pushHistory e ?d"
    by (simp add: observeAll_snoc getStableEmotion_def Let_def snoc.IH)
  also have "\<dots> = drop (length (?d @ [e]) - 5) (?d @ [e])" using len by (rule pushHistory_last5)
  also have "\<dots> = drop (length (es @ [e]) - 5) (es @ [e])"
  proof (cases "length es \<le> 5")
    case True then show ?thesis by simp
  next
    case False
    then have "Suc (length es - 5) = length es - 4" by arith
    with False show ?thesis by simp
  qed
  finally show ?case .
qed

text \<open>
  Claim C5. The filter is a majority vote over a window of the last five labels.
  From an empty history, the labels A, A, B, A, B give A on the last call; the six
  labels A, A, A, B, B, B leave the history A, A, B, B, B and give B on the last call;
  and after any sequence of calls the history is the last five labels fed (all of
  them when fewer were fed), so it never holds more than five and the oldest label
  leaves first.
\<close>

theorem stability_filter_window:
  "last (fst (observeAll [A, A, B, A, B] (s\<lparr>emotionHistory := []\<rparr>))) = A
   \<and> emotionHistory (snd (observeAll [A, A, A, B, B, B] (s\<lparr>emotionHistory := []\<rparr>)))
       = [A, A, B, B, B]
   \<and> last (fst (observeAll [A, A, A, B, B, B] (s\<lparr>emotionHistory := []\<rparr>))) = B
   \<and> emotionHistory (snd (observeAll es (s\<lparr>emotionHistory := []\<rparr>))) = drop (length es - 5) es
   \<and> length (emotionHistory (snd (observeAll es (s\<lparr>emotionHistory := []\<rparr>)))) \<le> 5"
proof -
  have 1: "last (fst (observeAll [A, A, B, A, B] (s\<lparr>emotionHistory := []\<rparr>))) = A"
    by (simp add: getStableEmotion_def Let_def pushHistory_def stableOf_def
        countHistory_def mostFrequent_def)
  have 2: "last (fst (observeAll [A, A, A, B, B, B] (s\<lparr>emotionHistory := []\<rparr>))) = B"
    by (simp add: getStableEmotion_def Let_def pushHistory_def stableOf_def
        countHistory_def mostFrequent_def)
  have 3: "emotionHistory (snd (observeAll [A, A, A, B, B, B] (s\<lparr>emotionHistory := []\<rparr>)))
             = [A, A, B, B, B]"
    by (simp only: observeAll_history) simp
  have 4: "emotionHistory (snd (observeAll es (s\<lparr>emotionHistory := []\<rparr>)))
             = drop (length es - 5) es"
    by (rule observeAll_history)
  have 5: "length (emotionHistory (snd (observeAll es (s\<lparr>emotionHistory := []\<rparr>)))) \<le> 5"
    by (simp only: observeAll_history) simp
  from 1 2 3 4 5 show ?thesis by blast
qed

text \<open>
  Claim C9. Every call of \<open>getStableEmotion\<close> returns a label of the history as it is
  after the call; on an empty history it returns the label it was given; and in a
  sequence of calls from an empty history the answer to the last call is among the
  last five labels fed.
\<close>

theorem stable_label_in_history:
  "fst (getStableEmotion e s) \<in> set (emotionHistory (snd (getStableEmotion e s)))
   \<and> fst (getStableEmotion e (s\<lparr>emotionHistory := []\<rparr>)) = e
   \<and> last (fst (observeAll (es @ [e]) (s\<lparr>emotionHistory := []\<rparr>)))
       \<in> set (drop (length (es @ [e]) - 5) (es @ [e]))"
proof -
  have b: "fst (getStableEmotion e (s\<lparr>emotionHistory := []\<rparr>)) = e"
    using stableOf_mem[of e "[e]"] by (simp add: getStableEmotion_def Let_def pushHistory_def)
  have "last (fst (observeAll (es @ [e]) (s\<lparr>emotionHistory := []\<rparr>)))
        \<in> set (emotionHistory (snd (observeAll (es @ [e]) (s\<lparr>emotionHistory := []\<rparr>))))"
    by (simp add: observeAll_snoc getStableEmotion_mem)
  then have c: "last (fst (observeAll (es @ [e]) (s\<lparr>emotionHistory := []\<rparr>)))
                  \<in> set (drop (length (es @ [e]) - 5) (es @ [e]))"
    by (simp only: observeAll_history)
  show ?thesis using getStableEmotion_mem b c by blast
qed

text \<open>
  Claim C3, as the specification words it: among labels tied at the maximum count the
  winner is the one whose running count reaches the maximum first in a scan from the
  left, so that the history A, B, B, A gives B. The code gives A there: the entries
  of \<open>counts\<close> are visited in the order in which the labels first occur, and the
  comparison is strict, so A, seen first with count 2, is kept.
\<close>

theorem tie_break_counterexample:
  "emotionHistory (snd (observeAll [''A'', ''B'', ''B'', ''A''] (initial [])))
     = [''A'', ''B'', ''B'', ''A'']
   \<and> spec_firstToReachMax [''A'', ''B'', ''B'', ''A''] = Some ''B''
   \<and> last (fst (observeAll [''A'', ''B'', ''B'', ''A''] (initial []))) = ''A''
   \<and> ''A'' \<noteq> ''B''"
  by (simp add: getStableEmotion_def Let_def pushHistory_def stableOf_def countHistory_def
      mostFrequent_def initial_def spec_firstToReachMax_def maxOccurrence_def)

text \<open>
  Claim C3, amended: the label returned is the first label of the current history,
  from the left, whose count in that history is maximal; among tied labels it is the
  one that occurs first.
\<close>

theorem tie_break_first_occurrence:
  "firstWithMaxCount (emotionHistory (snd (getStableEmotion e s)))
     = Some (fst (getStableEmotion e s))"
proof -
  have "pushHistory e (emotionHistory s) \<noteq> []"
    using pushHistory_mem[of e "emotionHistory s"] by auto
  from stableOf_first[OF this] show ?thesis by (simp add: getStableEmotion_def Let_def)
qed

theorem tie_break_first_occurrence_witness:
  "firstWithMaxCount [''A'', ''B'', ''B'', ''A'']
     = Some (fst (getStableEmotion ''A'' ((initial [])\<lparr>emotionHistory := [''A'', ''B'', ''B'']\<rparr>)))
   \<and> firstWithMaxCount [''A'', ''B'', ''B'', ''A''] = Some ''A''"
  using tie_break_first_occurrence
          [of "''A''" "(initial [])\<lparr>emotionHistory := [''A'', ''B'', ''B'']\<rparr>"]
  by (simp add: getStableEmotion_def Let_def pushHistory_def firstWithMaxCount_def)

subsection \<open>Persistence\<close>

lemma getStableEmotion_posts:
  "posts (snd (getStableEmotion e s)) = posts s"
  "lastEmotionSaveTime (snd (getStableEmotion e s)) = lastEmotionSaveTime s"
  by (simp_all add: getStableEmotion_def Let_def)

lemma logged_saveEmotion: "logged s \<Longrightarrow> logged (saveEmotion now e c s)"
  by (cases "posts s") (auto simp: logged_def saveEmotion_def)

lemma logged_cong:
  "posts s' = posts s \<Longrightarrow> lastEmotionSaveTime s' = lastEmotionSaveTime s \<Longrightarrow>
   logged s \<Longrightarrow> logged s'"
  by (simp add: logged_def)

lemma logged_faceTick: "logged s \<Longrightarrow> logged (faceTick xs saveNow s)"
proof -
  assume l: "logged s"
  obtain em cf where m: "mapEmotion xs = (em, cf)" by fastforce
  obtain st s1 where g: "getStableEmotion em s = (st, s1)" by fastforce
  have "posts s1 = posts s" "lastEmotionSaveTime s1 = lastEmotionSaveTime s"
    using getStableEmotion_posts[of em s] g by simp_all
  then have l1: "logged s1" using l by (rule logged_cong)
  then have "logged (s1\<lparr> currentEmotion := st, emotionDisplay := st \<rparr>)"
    by (rule logged_cong[rotated 2]) simp_all
  then have "logged (saveEmotion saveNow st cf (s1\<lparr> currentEmotion := st, emotionDisplay := st \<rparr>))"
    by (rule logged_saveEmotion)
  with l l1 show ?thesis by (simp add: faceTick_def m g)
qed

lemma logged_noFaceTick: "logged s \<Longrightarrow> logged (noFaceTick s)"
  by (simp add: noFaceTick_def Let_def logged_def)

lemma logged_detectFaces: "logged s \<Longrightarrow> logged (detectFaces now out saveNow s)"
proof -
  assume l: "logged s"
  have a: "\<And>s'. logged s' \<Longrightarrow> logged (s'\<lparr>noFaceDetectionCount := 0\<rparr>)"
    by (simp add: logged_def)
  have b: "logged (s\<lparr>lastDetectionTime := now\<rparr>)" using l by (simp add: logged_def)
  show ?thesis using l b a[OF b] logged_noFaceTick[OF b] logged_faceTick[OF a[OF b]]
    by (simp add: detectFaces_def Let_def split: outcome.split)
qed

lemma logged_start: "logged s \<Longrightarrow> logged (startDetection granted s)"
  by (simp add: startDetection_def logged_def)

lemma logged_stop: "logged s \<Longrightarrow> logged (stopDetection s)"
  by (simp add: stopDetection_def logged_def)

lemma logged_step: "logged s \<Longrightarrow> logged (step s ev)"
  by (cases ev) (simp_all add: logged_detectFaces logged_start logged_stop)

lemma logged_run: "logged s \<Longrightarrow> logged (run evs s)"
  unfolding run_def by (induction evs arbitrary: s) (simp_all add: logged_step)

lemma logged_initial: "logged (initial shown)"
  by (simp add: logged_def initial_def)

lemma spaced_mono: "spaced d ts \<Longrightarrow> d' \<le> d \<Longrightarrow> spaced d' ts"
  by (induction d ts rule: spaced.induct) auto

text \<open>
  Claim C8. In every execution from the initial state, whatever the handlers and
  detection runs and however often the stable label changes, two successive requests
  to \<open>POST /api/emotions\<close> are at least 2000 ms apart, by the readings of
  \<open>Date.now()\<close> that \<open>saveEmotion\<close> takes when it issues them.
\<close>

theorem saves_spaced:
  "spaced 2000 (map post_time (posts (run evs (initial shown))))"
  using logged_run[OF logged_initial, of evs shown]
  by (auto simp: logged_def emotionSaveInterval_def intro: spaced_mono)

text \<open>
  Claim C10. \<open>saveEmotion\<close> called with the label \<open>No face detected\<close> issues no
  request and changes nothing, and in every execution from the initial state no
  request of the log carries that label.
\<close>

theorem no_face_never_posted:
  "saveEmotion now ''No face detected'' confidence s = s
   \<and> ''No face detected'' \<notin> post_emotion ` set (posts (run evs (initial shown)))"
  using logged_run[OF logged_initial, of evs shown]
  by (simp add: logged_def saveEmotion_def)

subsection \<open>Sustained absence\<close>

lemma noFaceRuns_snoc:
  "noFaceRuns (nows @ [now]) s = detectFaces now NoFace now (noFaceRuns nows s)"
  by (simp add: noFaceRuns_def)

lemma passesGate_snoc:
  "passesGate p (nows @ [now]) =
     (passesGate p nows \<and> \<not> now - last (p # nows) < detectionInterval)"
  by (induction nows arbitrary: p) auto

lemma passesGate_take: "passesGate p nows \<Longrightarrow> passesGate p (take n nows)"
proof (induction nows arbitrary: p n)
  case Nil then show ?case by simp
next
  case (Cons a nows) then show ?case by (cases n) auto
qed

text \<open>
  While the counter stays at 5 or below, a run without a face changes the counter
  and the detection time only.
\<close>

lemma noFaceRuns_quiet:
  "isStreaming s \<Longrightarrow> passesGate (lastDetectionTime s) nows \<Longrightarrow>
   noFaceDetectionCount s + length nows \<le> 5 \<Longrightarrow>
   noFaceRuns nows s = s\<lparr> lastDetectionTime := last (lastDetectionTime s # nows),
                          noFaceDetectionCount := noFaceDetectionCount s + length nows \<rparr>"
proof (induction nows rule: rev_induct)
  case Nil then show ?case by (simp add: noFaceRuns_def)
next
  case (snoc now nows)
  then show ?case
    by (simp add: noFaceRuns_snoc passesGate_snoc detectFaces_def noFaceTick_def Let_def)
qed

lemma faceTick_count: "noFaceDetectionCount (faceTick xs saveNow s) = noFaceDetectionCount s"
  by (simp add: faceTick_def Let_def saveEmotion_def getStableEmotion_def split_beta)

text \<open>
  Claim C6. Take a streaming state that shows a detected emotion, with the absence
  counter at 0, and six consecutive detection runs that pass the interval gate and
  find no face. After the first n of them, for every n up to 5 (so after 4, and
  after 5 as well), the current emotion, the history and the displayed text are
  unchanged; after the sixth the current emotion is \<open>No face detected\<close> and the history
  is empty. A run that passes the gate and finds a face, with or without expressions,
  leaves the counter at 0.
\<close>

theorem sustained_absence_threshold:
  assumes "isStreaming s" and "noFaceDetectionCount s = 0"
    and "currentEmotion s \<noteq> ''No face detected''"
    and "passesGate (lastDetectionTime s) nows" and "length nows = 6"
  shows "(\<forall>n \<le> 5. currentEmotion (noFaceRuns (take n nows) s) = currentEmotion s
                \<and> emotionHistory (noFaceRuns (take n nows) s) = emotionHistory s
                \<and> emotionDisplay (noFaceRuns (take n nows) s) = emotionDisplay s)
       \<and> currentEmotion (noFaceRuns nows s) = ''No face detected''
       \<and> emotionHistory (noFaceRuns nows s) = []
       \<and> (isStreaming t \<and> \<not> now - lastDetectionTime t < detectionInterval \<longrightarrow>
            noFaceDetectionCount (detectFaces now NoExpressions saveNow t) = 0
          \<and> noFaceDetectionCount (detectFaces now (Expressions xs) saveNow t) = 0)"
proof -
  have gate: "\<And>n. passesGate (lastDetectionTime s) (take n nows)"
    using assms(4) by (rule passesGate_take)
  have quiet: "\<And>n. n \<le> 5 \<Longrightarrow> noFaceRuns (take n nows) s =
      s\<lparr> lastDetectionTime := last (lastDetectionTime s # take n nows),
         noFaceDetectionCount := n \<rparr>"
    using noFaceRuns_quiet[OF assms(1) gate] assms(2,5) by simp
  have "length (drop 5 nows) = 1" using assms(5) by simp
  then obtain now6 where "drop 5 nows = [now6]" by (cases "drop 5 nows") auto
  then have n6: "nows = take 5 nows @ [now6]" by (metis append_take_drop_id)
  have "passesGate (lastDetectionTime s) (take 5 nows @ [now6])" using assms(4) n6 by simp
  then have g6: "\<not> now6 - last (lastDetectionTime s # take 5 nows) < detectionInterval"
    by (simp add: passesGate_snoc)
  have "noFaceRuns nows s = detectFaces now6 NoFace now6 (noFaceRuns (take 5 nows) s)"
    by (subst n6) (rule noFaceRuns_snoc)
  then have six: "currentEmotion (noFaceRuns nows s) = ''No face detected''
                  \<and> emotionHistory (noFaceRuns nows s) = []"
    using quiet[of 5] g6 assms(1,3) by (simp add: detectFaces_def noFaceTick_def Let_def)
  have det: "isStreaming t \<and> \<not> now - lastDetectionTime t < detectionInterval \<longrightarrow>
            noFaceDetectionCount (detectFaces now NoExpressions saveNow t) = 0
          \<and> noFaceDetectionCount (detectFaces now (Expressions xs) saveNow t) = 0"
    by (simp add: detectFaces_def Let_def faceTick_count)
  show ?thesis using quiet six det by simp
qed

lemma watching_state:
  "watching = \<lparr> isStreaming = True, stream = True, lastEmotionSaveTime = 1700000000040,
                lastDetectionTime = 1700000000000, emotionHistory = [''Happy''],
                currentEmotion = ''Happy'', noFaceDetectionCount = 0,
                emotionDisplay = ''Happy'',
                posts = [\<lparr> post_time = 1700000000040, post_emotion = ''Happy'',
                           post_confidence = 0.9 \<rparr>] \<rparr>"
  by (simp add: watching_def run_def initial_def startDetection_def detectFaces_def
      detectionInterval_def happyFrame_def faceTick_def mapEmotion_def emotionMap_def
      getStableEmotion_def pushHistory_def stableOf_def countHistory_def mostFrequent_def
      saveEmotion_def emotionSaveInterval_def Let_def)

theorem sustained_absence_threshold_witness:
  "isStreaming watching \<and> noFaceDetectionCount watching = 0
   \<and> currentEmotion watching = ''Happy'' \<and> emotionHistory watching = [''Happy'']
   \<and> passesGate (lastDetectionTime watching) sixRuns \<and> length sixRuns = 6
   \<and> currentEmotion (noFaceRuns (take 4 sixRuns) watching) = ''Happy''
   \<and> emotionHistory (noFaceRuns (take 4 sixRuns) watching) = [''Happy'']
   \<and> currentEmotion (noFaceRuns (take 5 sixRuns) watching) = ''Happy''
   \<and> emotionHistory (noFaceRuns (take 5 sixRuns) watching) = [''Happy'']
   \<and> currentEmotion (noFaceRuns sixRuns watching) = ''No face detected''
   \<and> emotionHistory (noFaceRuns sixRuns watching) = []
   \<and> noFaceDetectionCount (detectFaces 1700000000500 NoExpressions 1700000000500 watching) = 0"
proof -
  have h1: "isStreaming watching" and h2: "noFaceDetectionCount watching = 0"
    and h3: "currentEmotion watching \<noteq> ''No face detected''"
    and e: "currentEmotion watching = ''Happy''" "emotionHistory watching = [''Happy'']"
    by (simp_all add: watching_state)
  have h4: "passesGate (lastDetectionTime watching) sixRuns"
    by (simp add: watching_state sixRuns_def detectionInterval_def)
  have h5: "length sixRuns = 6" by (simp add: sixRuns_def)
  have g: "isStreaming watching
           \<and> \<not> 1700000000500 - lastDetectionTime watching < detectionInterval"
    by (simp add: watching_state detectionInterval_def)
  from sustained_absence_threshold
         [OF h1 h2 h3 h4 h5, of watching 1700000000500 1700000000500]
  show ?thesis using h1 h2 e h4 h5 g by simp
qed

subsection \<open>Stopping the session\<close>

text \<open>
  Claim C4. The stop handler releases the stream and ends streaming, after which a
  run of \<open>detectFaces\<close> does nothing; but it leaves the history, the current emotion
  and the absence counter as they were. Stopping the session that has seen one happy
  face leaves the history \<open>[Happy]\<close> and the current emotion \<open>Happy\<close>; and when the
  camera is started again and the next frame is happy too, the display keeps the text
  the stop handler wrote, because the stable label equals the stale current emotion.
\<close>

theorem stop_keeps_smoothing_state:
  "emotionHistory (stopDetection s) = emotionHistory s
   \<and> currentEmotion (stopDetection s) = currentEmotion s
   \<and> noFaceDetectionCount (stopDetection s) = noFaceDetectionCount s
   \<and> detectFaces now out saveNow (stopDetection s) = stopDetection s
   \<and> \<not> isStreaming (stopDetection s) \<and> \<not> stream (stopDetection watching)
   \<and> emotionHistory (stopDetection watching) = [''Happy'']
   \<and> currentEmotion (stopDetection watching) = ''Happy''
   \<and> emotionDisplay (stopDetection watching) = ''Waiting for detection...''
   \<and> emotionDisplay
        (run [Stop, Start True, Detect 1700000009000 happyFrame 1700000009040] watching)
       = ''Waiting for detection...''
   \<and> emotionHistory
        (run [Stop, Start True, Detect 1700000009000 happyFrame 1700000009040] watching)
       = [''Happy'', ''Happy'']"
proof -
  have a: "emotionHistory (stopDetection s) = emotionHistory s
           \<and> currentEmotion (stopDetection s) = currentEmotion s
           \<and> noFaceDetectionCount (stopDetection s) = noFaceDetectionCount s
           \<and> \<not> isStreaming (stopDetection s)"
    by (simp add: stopDetection_def)
  then have b: "detectFaces now out saveNow (stopDetection s) = stopDetection s"
    by (simp add: detectFaces_def)
  have c: "\<not> stream (stopDetection watching)
           \<and> emotionHistory (stopDetection watching) = [''Happy'']
           \<and> currentEmotion (stopDetection watching) = ''Happy''
           \<and> emotionDisplay (stopDetection watching) = ''Waiting for detection...''"
    by (simp add: watching_state stopDetection_def)
  have d: "run [Stop, Start True, Detect 1700000009000 happyFrame 1700000009040] watching
           = watching\<lparr> lastDetectionTime := 1700000009000,
                       emotionHistory := [''Happy'', ''Happy''],
                       emotionDisplay := ''Waiting for detection...'' \<rparr>"
    by (simp add: watching_state run_def stopDetection_def startDetection_def
        detectFaces_def detectionInterval_def happyFrame_def faceTick_def mapEmotion_def
        emotionMap_def getStableEmotion_def pushHistory_def stableOf_def countHistory_def
        mostFrequent_def Let_def)
  show ?thesis using a b c by (simp add: d)
qed

section \<open>Properties of the voice pipeline\<close>

subsection \<open>A silent snapshot\<close>

text \<open>
  The analyser delivers zero in every bin when the input is silent. The lemmas below
  evaluate \<open>calculateAudioFeatures\<close> on such a snapshot, of any length.
\<close>

lemma byteNum_0: "byteNum 0 = Num 0"
  by (simp add: byteNum_def)

lemma band_sum_silence:
  "foldl (\<lambda>sum val. js_add sum (js_mul (byteNum val) (Num w))) (Num 0) (replicate k 0) = Num 0"
  by (induction k) (simp_all add: byteNum_0)

lemma slice_silence: "slice a b (replicate n (0::byte)) = replicate (min (b - a) (n - a)) 0"
  by (simp add: slice_def)

lemma bandEnergy_silence:
  "bandEnergy w a b (replicate n 0) = (if b - a = 0 then NaN else Num 0)"
  by (simp add: bandEnergy_def slice_silence band_sum_silence)

lemma bandEnergy_silence_cases: "bandEnergy w a b (replicate n 0) \<in> {NaN, Num 0}"
  by (simp add: bandEnergy_silence)

lemma enumerate_silence_fold:
  assumes "\<And>i. f (Num 0) (i, 0) = Num 0"
  shows "foldl f (Num 0) (enumerate k (replicate m (0::byte))) = Num 0"
  by (induction m arbitrary: k) (simp_all add: assms)

lemma totalWeightOf_silence: "totalWeightOf (replicate n 0) = Num 0"
  unfolding totalWeightOf_def by (rule enumerate_silence_fold) (simp add: byteNum_0)

lemma spectralCentroidOf_silence: "spectralCentroidOf (replicate n 0) = Num 0"
  by (simp add: spectralCentroidOf_def Let_def totalWeightOf_silence)

lemma spectralSpreadOf_silence: "spectralSpreadOf (replicate n 0) = NaN"
proof (cases "n = 0")
  case True
  then show ?thesis
    by (simp add: spectralSpreadOf_def Let_def totalWeightOf_def)
next
  case False
  have "foldl (\<lambda>sum (i, val).
                 let diff = js_sub (js_div (Num (real i)) (Num (real n))) (Num 0)
                 in js_add sum (js_mul (js_mul diff diff) (byteNum val)))
          (Num 0) (enumerate 0 (replicate n 0)) = Num 0"
    by (rule enumerate_silence_fold) (simp add: byteNum_0 Let_def js_sub_def False)
  then show ?thesis
    by (simp add: spectralSpreadOf_def Let_def totalWeightOf_silence spectralCentroidOf_silence)
qed

lemma clamp01_NaN: "clamp01 NaN = NaN"
  by (simp add: clamp01_def)

lemma ratio_silence:
  assumes "a \<in> {NaN, Num 0}" "b \<in> {NaN, Num 0}" "c \<in> {NaN, Num 0}" "d \<in> {NaN, Num 0}"
  shows "js_div (js_add (js_mul a (Num k)) b) (js_add c d) = NaN"
    and "js_div (js_add a b) (js_add c d) = NaN"
  using assms by auto

lemma pitch_silence: "pitch (calculateAudioFeatures (replicate n 0)) = NaN"
  using ratio_silence(1)[OF bandEnergy_silence_cases bandEnergy_silence_cases
      bandEnergy_silence_cases bandEnergy_silence_cases]
  by (simp add: calculateAudioFeatures_def Let_def clamp01_NaN)

lemma speechRate_silence: "speechRate (calculateAudioFeatures (replicate n 0)) = NaN"
  using ratio_silence(2)[OF bandEnergy_silence_cases bandEnergy_silence_cases
      bandEnergy_silence_cases bandEnergy_silence_cases]
  by (simp add: calculateAudioFeatures_def Let_def clamp01_NaN)

lemma spread_silence: "spectralSpread (calculateAudioFeatures (replicate n 0)) = NaN"
  by (simp add: calculateAudioFeatures_def Let_def clamp01_NaN spectralSpreadOf_silence)

lemma centroid_silence: "spectralCentroid (calculateAudioFeatures (replicate n 0)) = Num 0"
  by (simp add: calculateAudioFeatures_def Let_def clamp01_def spectralCentroidOf_silence)

lemma consistency_silence: "consistency (calculateAudioFeatures (replicate n 0)) = NaN"
  by (simp add: calculateAudioFeatures_def Let_def spectralSpreadOf_silence js_sub_def)

lemma volume_silence: "n \<ge> 10 \<Longrightarrow> volume (calculateAudioFeatures (replicate n 0)) = Num 0"
  by (simp add: calculateAudioFeatures_def Let_def clamp01_def bandEnergy_silence) arith

text \<open>
  Claim C1. On a snapshot of zeros, of any length, the function returns a record (no
  operation of it can throw), and the guarded ratio \<open>spectralCentroid\<close> is 0; but
  \<open>pitch\<close>, \<open>speechRate\<close> and \<open>spectralSpread\<close>, whose divisors are 0 there and are not
  guarded, are NaN and not 0.
\<close>

theorem silence_ratios:
  "spectralCentroid (calculateAudioFeatures (replicate n 0)) = Num 0
   \<and> pitch (calculateAudioFeatures (replicate n 0)) = NaN
   \<and> speechRate (calculateAudioFeatures (replicate n 0)) = NaN
   \<and> spectralSpread (calculateAudioFeatures (replicate n 0)) = NaN
   \<and> NaN \<noteq> Num 0"
  by (simp add: centroid_silence pitch_silence speechRate_silence spread_silence)

subsection \<open>The clamp\<close>

lemma clamp01_range: "clamp01 x = NaN \<or> inUnitInterval (clamp01 x)"
  by (cases x) (auto simp: clamp01_def inUnitInterval_def js_ge_def)

text \<open>
  Each of the five clamped fields is NaN or lies in the closed interval from 0 to 1:
  the clamp catches every number and both infinities, and lets NaN through.
\<close>

lemma clamped_fields:
  "(pitch (calculateAudioFeatures fd) = NaN \<or> inUnitInterval (pitch (calculateAudioFeatures fd)))
   \<and> (volume (calculateAudioFeatures fd) = NaN
        \<or> inUnitInterval (volume (calculateAudioFeatures fd)))
   \<and> (speechRate (calculateAudioFeatures fd) = NaN
        \<or> inUnitInterval (speechRate (calculateAudioFeatures fd)))
   \<and> (spectralCentroid (calculateAudioFeatures fd) = NaN
        \<or> inUnitInterval (spectralCentroid (calculateAudioFeatures fd)))
   \<and> (spectralSpread (calculateAudioFeatures fd) = NaN
        \<or> inUnitInterval (spectralSpread (calculateAudioFeatures fd)))"
  by (simp add: calculateAudioFeatures_def Let_def clamp01_range)

text \<open>
  Claim C2. On a snapshot of zeros, of any length, the fields \<open>pitch\<close>, \<open>speechRate\<close>
  and \<open>spectralSpread\<close> of the returned record are NaN, which is not in the closed
  interval from 0 to 1.
\<close>

theorem silence_not_in_unit_interval:
  "\<not> inUnitInterval (pitch (calculateAudioFeatures (replicate n 0)))
   \<and> \<not> inUnitInterval (speechRate (calculateAudioFeatures (replicate n 0)))
   \<and> \<not> inUnitInterval (spectralSpread (calculateAudioFeatures (replicate n 0)))"
  by (simp add: pitch_silence speechRate_silence spread_silence inUnitInterval_def js_ge_def)

subsection \<open>The spectral spread\<close>

lemma weight_fold:
  "foldl (\<lambda>totalWeight (i, val). js_add totalWeight (byteNum val)) (Num a) (enumerate k fd)
     = Num (a + real (sum_list (map unat fd)))"
  by (induction fd arbitrary: a k) (simp_all add: byteNum_def)

lemma index_fold:
  "\<exists>r. foldl (\<lambda>acc (i, val). js_add acc (js_mul (Num (real i)) (byteNum val))) (Num a)
         (enumerate k fd) = Num r"
  by (induction fd arbitrary: a k) (simp_all add: byteNum_def)

lemma num_fold:
  assumes "\<And>x. x \<in> set xs \<Longrightarrow> \<exists>r\<ge>0. g x = Num r"
  shows "a \<ge> 0 \<Longrightarrow> \<exists>r\<ge>0. foldl (\<lambda>acc x. js_add acc (g x)) (Num a) xs = Num r"
  using assms
proof (induction xs arbitrary: a)
  case Nil then show ?case by simp
next
  case (Cons x xs)
  from Cons.prems(2)[of x] obtain r where r: "r \<ge> 0" "g x = Num r" by auto
  have "\<exists>r'\<ge>0. foldl (\<lambda>acc x. js_add acc (g x)) (Num (a + r)) xs = Num r'"
    using Cons.prems r by (intro Cons.IH) auto
  then show ?case by (simp add: r)
qed

lemma js_div_Num: "b \<noteq> 0 \<Longrightarrow> js_div (Num a) (Num b) = Num (a / b)"
  by simp

text \<open>
  When some bin is not zero, the spread is a number and it is not negative: the sum
  under the root is a sum of squares weighted by the magnitudes.
\<close>

lemma spectralSpreadOf_nonneg:
  assumes "js_gt (totalWeightOf fd) (Num 0)"
  shows "js_ge (spectralSpreadOf fd) (Num 0)"
proof -
  let ?n = "length fd"
  let ?w = "real (sum_list (map unat fd))"
  have w: "totalWeightOf fd = Num ?w"
    using weight_fold[of 0 0 fd] by (simp add: totalWeightOf_def)
  with assms have wpos: "?w > 0" by simp
  then have wne: "?w \<noteq> 0" by (metis less_irrefl)
  have "fd \<noteq> []"
  proof
    assume "fd = []"
    with wpos show False by simp
  qed
  then have nne: "real ?n \<noteq> 0" by simp
  obtain c where c: "spectralCentroidOf fd = Num c"
  proof -
    from index_fold[of 0 0 fd] obtain r where
      "foldl (\<lambda>acc (i, val). js_add acc (js_mul (Num (real i)) (byteNum val))) (Num 0)
         (enumerate 0 fd) = Num r" by blast
    then have "spectralCentroidOf fd = js_div (js_div (Num r) (Num ?w)) (Num (real ?n))"
      using assms by (simp add: spectralCentroidOf_def Let_def w)
    also have "\<dots> = js_div (Num (r / ?w)) (Num (real ?n))"
      by (simp only: js_div_Num[OF wne])
    also have "\<dots> = Num (r / ?w / real ?n)"
      by (simp only: js_div_Num[OF nne])
    finally show ?thesis using that by blast
  qed
  have npos: "?n > 0" using nne by simp
  let ?g = "\<lambda>x. js_mul (js_mul (js_sub (js_div (Num (real (fst x))) (Num (real ?n))) (Num c))
                                (js_sub (js_div (Num (real (fst x))) (Num (real ?n))) (Num c)))
                        (byteNum (snd x))"
  have "\<exists>r\<ge>0. foldl (\<lambda>acc x. js_add acc (?g x)) (Num 0) (enumerate 0 fd) = Num r"
  proof (rule num_fold)
    fix x :: "nat \<times> byte"
    let ?d = "real (fst x) / real ?n - c"
    have "?g x = Num (?d * ?d * real (unat (snd x)))"
      using npos by (simp add: js_sub_def byteNum_def)
    moreover have "0 \<le> ?d * ?d * real (unat (snd x))"
      by (rule mult_nonneg_nonneg[OF zero_le_square]) (rule of_nat_0_le_iff)
    ultimately show "\<exists>r\<ge>0. ?g x = Num r" by blast
  qed simp
  then obtain r where r: "r \<ge> 0"
    "foldl (\<lambda>acc x. js_add acc (?g x)) (Num 0) (enumerate 0 fd) = Num r" by blast
  have "spectralSpreadOf fd = js_sqrt (js_div (Num r) (Num ?w))"
    by (simp only: spectralSpreadOf_def Let_def c w case_prod_unfold r(2))
  also have "\<dots> = js_sqrt (Num (r / ?w))" by (simp only: js_div_Num[OF wne])
  also have "\<dots> = Num (sqrt (r / ?w))"
  proof -
    have "0 \<le> r / ?w" using r(1) wpos by (intro divide_nonneg_pos)
    then show ?thesis by (simp add: not_less)
  qed
  finally have "spectralSpreadOf fd = Num (sqrt (r / ?w))" .
  moreover have "0 \<le> sqrt (r / ?w)"
    using r(1) wpos by (intro real_sqrt_ge_zero divide_nonneg_pos)
  ultimately show ?thesis by (auto simp: js_ge_def)
qed

text \<open>
  Claim C7. On a snapshot of zeros, of any length, the spread computed by
  \<open>calculateAudioFeatures\<close> is NaN, because the sum under the root is divided by the
  total weight 0 without the guard the centroid has; the test \<open>spread >= 0\<close> is false
  for it, and \<open>consistency\<close>, computed from it, is NaN as well.
\<close>

theorem silence_spread_not_nonneg:
  "spectralSpreadOf (replicate n 0) = NaN
   \<and> \<not> js_ge (spectralSpreadOf (replicate n 0)) (Num 0)
   \<and> consistency (calculateAudioFeatures (replicate n 0)) = NaN"
  by (simp add: spectralSpreadOf_silence consistency_silence js_ge_def)


end
